theory Spec2Isabelle
  imports Main
begin

section \<open>Data model\<close>

text \<open>
  A model descriptor is the dictionary the host keeps for one segmentation model. The keys
  \<open>id\<close>, \<open>title\<close> and \<open>version\<close> are always present; \<open>deprecated\<close> may be absent, which
  is why the code reads it with \<open>model.get("deprecated", False)\<close>.

  Strings are lists of characters. A character stands for a code point below 256; on that
  range Python's \<open>\d\<close> is exactly \<open>0\<close> to \<open>9\<close>, and \<open>str.lower\<close> and \<open>str.split\<close>
  are as defined below.
\<close>

record model =
  model_id :: string
  title :: string
  version :: string
  deprecated :: "bool option"

definition get_deprecated :: "model \<Rightarrow> bool" where
  "get_deprecated m = (case deprecated m of None \<Rightarrow> False | Some b \<Rightarrow> b)"

text \<open>
  The lines the resolvers print, one constructor for each \<open>print\<close> call with the values
  it interpolates.
\<close>

datatype diag =
    ModelFound string
  | ExactNotFound string
  | Searching string
  | UsingFallback string
  | FallbackTitle string
  | FallbackVersion string
  | NotFoundSearching string string
  | UsingFallbackTitled string string

text \<open>
  The part of the host a call can see: whether the MONAIAuto3DSeg extension can be imported,
  the list \<open>logic.models\<close> of the logic object the call works on, and what has been printed.
\<close>

record host =
  installed :: bool
  models :: "model list"
  stdout :: "diag list"

datatype error = ImportError | ValueError string | IndexError

definition print :: "diag \<Rightarrow> host \<Rightarrow> host" where
  "print d h = h\<lparr>stdout := stdout h @ [d]\<rparr>"

section \<open>Strings\<close>

definition newline :: char where
  "newline = CHR 0x0A"

definition is_digit :: "char \<Rightarrow> bool" where
  "is_digit c = (c \<in> set ''0123456789'')"

text \<open>\<open>s.startswith(p)\<close>\<close>

definition startswith :: "string \<Rightarrow> string \<Rightarrow> bool" where
  "startswith s p = (take (length p) s = p)"

text \<open>Decimal rendering of a natural number, as an f-string renders an \<open>int\<close>.\<close>

definition digit_char :: "nat \<Rightarrow> char" where
  "digit_char d = char_of (48 + d)"

fun str_nat :: "nat \<Rightarrow> string" where
  "str_nat n = (if n < 10 then [digit_char n] else str_nat (n div 10) @ [digit_char (n mod 10)])"

declare str_nat.simps [simp del]

section \<open>The pattern \<open>^(.+)-v\d+\.\d+\.\d+$\<close>\<close>

text \<open>
  \<open>\d+\<close> takes the longest run of digits. Giving a digit back never helps here, since
  what follows (\<open>\.\<close> or \<open>$\<close>) cannot match at a digit. The result is the rest of the
  string, or \<open>None\<close> when there is no digit.
\<close>

definition digits_plus :: "string \<Rightarrow> string option" where
  "digits_plus s = (if takeWhile is_digit s = [] then None else Some (dropWhile is_digit s))"

text \<open>
  \<open>$\<close> without \<open>re.MULTILINE\<close> matches at the end of the string and also just before a
  newline that is the last character.
\<close>

definition at_end :: "string \<Rightarrow> bool" where
  "at_end s = (s = [] \<or> s = [newline])"

definition dot_digits :: "string \<Rightarrow> string option" where
  "dot_digits s = (case s of c # r \<Rightarrow> (if c = CHR ''.'' then digits_plus r else None) | [] \<Rightarrow> None)"

text \<open>\<open>-v\d+\.\d+\.\d+\<close> at the start of a string, giving what follows it.\<close>

definition version_part :: "string \<Rightarrow> string option" where
  "version_part s =
     (case s of
        c1 # c2 # r \<Rightarrow>
          (if c1 = CHR ''-'' \<and> c2 = CHR ''v''
           then Option.bind (Option.bind (digits_plus r) dot_digits) dot_digits
           else None)
      | _ \<Rightarrow> None)"

text \<open>The part of the pattern after the group: \<open>-v\d+\.\d+\.\d+$\<close>.\<close>

definition suffix_match :: "string \<Rightarrow> bool" where
  "suffix_match s = (case version_part s of None \<Rightarrow> False | Some r \<Rightarrow> at_end r)"

text \<open>
  The group \<open>(.+)\<close> is greedy: it first takes every character up to the first newline
  (\<open>.\<close> does not match a newline), then gives characters back one at a time until the rest
  of the pattern matches, keeping at least one. \<open>greedy n s\<close> tries the group lengths
  \<open>n\<close>, \<open>n - 1\<close>, ..., \<open>1\<close>.
\<close>

fun greedy :: "nat \<Rightarrow> string \<Rightarrow> string option" where
  "greedy 0 s = None"
| "greedy (Suc n) s =
     (if suffix_match (drop (Suc n) s) then Some (take (Suc n) s) else greedy n s)"

text \<open>\<open>re.match(r"^(.+)-v\d+\.\d+\.\d+$", s)\<close>, giving \<open>group(1)\<close> on a match.\<close>

definition re_match :: "string \<Rightarrow> string option" where
  "re_match s = greedy (length (takeWhile (\<lambda>c. c \<noteq> newline) s)) s"

section \<open>The resolver of \<open>Scripts/model_selection_utils.py\<close>\<close>

text \<open>The exact-match loop: does some descriptor carry the requested id?\<close>

fun exact_scan :: "string \<Rightarrow> model list \<Rightarrow> bool" where
  "exact_scan x [] = False"
| "exact_scan x (m # ms) = (if model_id m = x then True else exact_scan x ms)"

text \<open>The fallback loop, appending to \<open>matchingModels\<close>.\<close>

fun matching :: "string \<Rightarrow> model list \<Rightarrow> model list \<Rightarrow> model list" where
  "matching b [] acc = acc"
| "matching b (m # ms) acc =
     (if startswith (model_id m) (b @ ''-v'') then
        (if \<not> get_deprecated m then matching b ms (acc @ [m]) else matching b ms acc)
      else matching b ms acc)"

definition availableIds :: "model list \<Rightarrow> string list" where
  "availableIds ms = map model_id (filter (\<lambda>m. \<not> get_deprecated m) ms)"

text \<open>The loop over \<open>availableIds[:10]\<close> that extends the message.\<close>

fun add_lines :: "string list \<Rightarrow> string \<Rightarrow> string" where
  "add_lines [] msg = msg"
| "add_lines (i # is) msg = add_lines is (msg @ ''  - '' @ i @ [newline])"

definition errorMsg :: "string \<Rightarrow> model list \<Rightarrow> string" where
  "errorMsg x ms =
     (let ids = availableIds ms;
          msg = ''Model '' @ [CHR 0x27] @ x @ [CHR 0x27] @ '' not found and no fallback available.''
                @ [newline] @ ''Available models:'' @ [newline];
          msg = add_lines (take 10 ids) msg
      in if length ids > 10
         then msg @ ''  ... and '' @ str_nat (length ids - 10) @ '' more'' @ [newline]
         else msg)"

text \<open>
  \<open>findModelId(preferredModelId, logic)\<close>. \<open>given\<close> says whether the caller passed a
  logic object; without one the function imports the extension and builds one, whose model
  list is then \<open>models h\<close>.
\<close>

definition findModelId :: "string \<Rightarrow> bool \<Rightarrow> host \<Rightarrow> (error + string) \<times> host" where
  "findModelId preferredModelId given h =
     (if \<not> given \<and> \<not> installed h then (Inl ImportError, h)
      else if exact_scan preferredModelId (models h) then
        (Inr preferredModelId, print (ModelFound preferredModelId) h)
      else
        (case re_match preferredModelId of
           Some baseName \<Rightarrow>
             (let h1 = print (Searching baseName) (print (ExactNotFound preferredModelId) h)
              in (case matching baseName (models h1) [] of
                    latestModel # _ \<Rightarrow>
                      (Inr (model_id latestModel),
                       print (FallbackVersion (version latestModel))
                         (print (FallbackTitle (title latestModel))
                            (print (UsingFallback (model_id latestModel)) h1)))
                  | [] \<Rightarrow> (Inl (ValueError (errorMsg preferredModelId (models h1))), h1)))
         | None \<Rightarrow> (Inl (ValueError (errorMsg preferredModelId (models h))), h)))"

section \<open>The resolver of the tutorial script\<close>

text \<open>The fallback loop of \<open>Slicer4MinuteTest.findModelId\<close>.\<close>

fun matching_tutorial :: "string \<Rightarrow> model list \<Rightarrow> model list \<Rightarrow> model list" where
  "matching_tutorial b [] acc = acc"
| "matching_tutorial b (m # ms) acc =
     (if startswith (model_id m) (b @ ''-v'') then matching_tutorial b ms (acc @ [m])
      else matching_tutorial b ms acc)"

text \<open>
  \<open>Slicer4MinuteTest.findModelId(preferredModelId, logic)\<close>. Its message formats a list
  of ids with Python's \<open>repr\<close>, which is the parameter \<open>repr\<close> here.
\<close>

definition Slicer4MinuteTest_findModelId ::
    "(string list \<Rightarrow> string) \<Rightarrow> string \<Rightarrow> bool \<Rightarrow> host \<Rightarrow> (error + string) \<times> host" where
  "Slicer4MinuteTest_findModelId repr preferredModelId given h =
     (let err = ValueError (''Model '' @ [CHR 0x27] @ preferredModelId @ [CHR 0x27]
                  @ '' not found and no fallback available. Available models: ''
                  @ repr (map model_id (take 5 (models h))) @ ''...'')
      in if \<not> given \<and> \<not> installed h then (Inl ImportError, h)
         else if exact_scan preferredModelId (models h) then
           (Inr preferredModelId, print (ModelFound preferredModelId) h)
         else
           (case re_match preferredModelId of
              Some baseName \<Rightarrow>
                (let h1 = print (NotFoundSearching preferredModelId baseName) h
                 in (case matching_tutorial baseName (models h1) [] of
                       latestModel # _ \<Rightarrow>
                         (Inr (model_id latestModel),
                          print (UsingFallbackTitled (model_id latestModel) (title latestModel)) h1)
                     | [] \<Rightarrow> (Inl err, h1)))
            | None \<Rightarrow> (Inl err, h)))"

section \<open>The keyword extractor\<close>

text \<open>\<open>str.isspace\<close> on one character.\<close>

definition is_space :: "char \<Rightarrow> bool" where
  "is_space c = ((of_char c :: nat) \<in> set [9, 10, 11, 12, 13, 28, 29, 30, 31, 32, 133, 160])"

text \<open>
  \<open>str.split()\<close> with no argument: runs of whitespace separate the words and no word is
  empty. \<open>cur\<close> is the word being read.
\<close>

fun split_from :: "string \<Rightarrow> string \<Rightarrow> string list" where
  "split_from [] cur = (if cur = [] then [] else [cur])"
| "split_from (c # cs) cur =
     (if is_space c then (if cur = [] then split_from cs [] else cur # split_from cs [])
      else split_from cs (cur @ [c]))"

definition str_split :: "string \<Rightarrow> string list" where
  "str_split s = split_from s []"

text \<open>\<open>str.lower\<close>: the letters A to Z and the capital letters of Latin-1.\<close>

definition lower_char :: "char \<Rightarrow> char" where
  "lower_char c =
     (let n = (of_char c :: nat)
      in if (65 \<le> n \<and> n \<le> 90) \<or> (192 \<le> n \<and> n \<le> 222 \<and> n \<noteq> 215) then char_of (n + 32) else c)"

definition str_lower :: "string \<Rightarrow> string" where
  "str_lower s = map lower_char s"

text \<open>\<open>" ".join(ws)\<close>\<close>

fun str_join :: "string list \<Rightarrow> string" where
  "str_join [] = []"
| "str_join [w] = w"
| "str_join (w # ws) = w @ '' '' @ str_join ws"

definition skipWords :: "string list" where
  "skipWords = [''segmentation'', ''quick'', ''-'', ''ts1'', ''ts2'', ''v1'', ''v2'', ''the'']"

text \<open>The test that lets a word into \<open>keywords\<close>.\<close>

definition meaningful :: "string \<Rightarrow> bool" where
  "meaningful word = (str_lower word \<notin> set skipWords \<and> length word > 2)"

text \<open>The loop over \<open>words\<close>, which stops once \<open>keywords\<close> holds two words.\<close>

fun collect :: "string list \<Rightarrow> string list \<Rightarrow> string list" where
  "collect [] keywords = keywords"
| "collect (word # words) keywords =
     (if meaningful word then
        (let keywords = keywords @ [word]
         in if length keywords \<ge> 2 then keywords else collect words keywords)
      else collect words keywords)"

text \<open>\<open>xs[0]\<close>, which raises on an empty list.\<close>

definition index0 :: "'a list \<Rightarrow> error + 'a" where
  "index0 xs = (case xs of [] \<Rightarrow> Inl IndexError | x # _ \<Rightarrow> Inr x)"

text \<open>What the loop body returns for the descriptor found, from its translated title.\<close>

definition keywords_of :: "string \<Rightarrow> error + string" where
  "keywords_of translatedTitle =
     (let words = str_split translatedTitle;
          keywords = collect words []
      in if keywords \<noteq> [] then Inr (str_join keywords)
         else if words \<noteq> [] then index0 words else Inr [])"

fun scan_models :: "(string \<Rightarrow> string \<Rightarrow> string) \<Rightarrow> string \<Rightarrow> model list \<Rightarrow> error + string" where
  "scan_models translate modelId [] = Inr []"
| "scan_models translate modelId (m # ms) =
     (if model_id m = modelId then keywords_of (translate ''Models'' (title m))
      else scan_models translate modelId ms)"

text \<open>
  \<open>getModelSearchKeywords(modelId, logic)\<close>. \<open>translate\<close> is the host's translation
  function, or the identity on the text when \<open>slicer.i18n\<close> cannot be imported.
\<close>

definition getModelSearchKeywords ::
    "(string \<Rightarrow> string \<Rightarrow> string) \<Rightarrow> string \<Rightarrow> bool \<Rightarrow> host \<Rightarrow> error + string" where
  "getModelSearchKeywords translate modelId given h =
     (if \<not> given \<and> \<not> installed h then Inr []
      else scan_models translate modelId (models h))"

section \<open>The shape of an id, in the words of the specification\<close>

text \<open>\<open><digits>\<close>: one digit or more.\<close>

definition all_digits :: "string \<Rightarrow> bool" where
  "all_digits ds = (ds \<noteq> [] \<and> list_all is_digit ds)"

text \<open>
  A version suffix is \<open>-v<digits>.<digits>.<digits>\<close> and nothing more.
\<close>

definition version_suffix :: "string \<Rightarrow> bool" where
  "version_suffix s = (version_part s = Some [])"

text \<open>An id ends in a version suffix, after a prefix that is not empty.\<close>

definition ends_in_version :: "string \<Rightarrow> bool" where
  "ends_in_version x = list_ex (\<lambda>n. version_suffix (drop n x)) [1..<length x]"

section \<open>Example collections\<close>

definition descriptor :: "string \<Rightarrow> string \<Rightarrow> string \<Rightarrow> bool option \<Rightarrow> model" where
  "descriptor i t v d = \<lparr>model_id = i, title = t, version = v, deprecated = d\<rparr>"

definition host_of :: "model list \<Rightarrow> host" where
  "host_of ms = \<lparr>installed = True, models = ms, stdout = []\<rparr>"

definition prostate_100 :: model where
  "prostate_100 = descriptor ''prostate-v1.0.0'' ''Prostate Segmentation'' ''1.0.0'' (Some False)"

definition prostate_101 :: model where
  "prostate_101 = descriptor ''prostate-v1.0.1'' ''Prostate Segmentation'' ''1.0.1'' None"

definition prostate_101_deprecated :: model where
  "prostate_101_deprecated =
     descriptor ''prostate-v1.0.1'' ''Prostate Segmentation'' ''1.0.1'' (Some True)"

definition brats_gli :: model where
  "brats_gli = descriptor ''brats-gli-v1.0.0'' ''Brain Tumor'' ''1.0.0'' None"

definition whole_body :: model where
  "whole_body =
     descriptor ''whole-body-3mm-v1.0.0'' ''Whole Body Segmentation TS2 - quick'' ''1.0.0'' None"

definition stop_words_only :: model where
  "stop_words_only = descriptor ''ts2-v1.0.0'' ''The TS2 - v1'' ''1.0.0'' None"

text \<open>The translation used when \<open>slicer.i18n\<close> is not there: \<open>lambda category, text: text\<close>.\<close>

definition no_translation :: "string \<Rightarrow> string \<Rightarrow> string" where
  "no_translation category text = text"

definition lung_ct :: model where
  "lung_ct =
     descriptor ''lung-ct-v1.0.0'' ''Quick  Segmentation - TS2 v1 of CT1 Lungs the Airways''
       ''1.0.0'' None"

definition prostate_102_deprecated :: model where
  "prostate_102_deprecated =
     descriptor ''prostate-v1.0.2'' ''Prostate Segmentation'' ''1.0.2'' (Some True)"


section \<open>Properties\<close>

lemma exact_scan_iff: "exact_scan x ms \<longleftrightarrow> x \<in> model_id ` set ms"
  by (induction ms) auto

lemma models_print [simp]: "models (print d h) = models h"
  by (simp add: print_def)

lemma installed_print [simp]: "installed (print d h) = installed h"
  by (simp add: print_def)

lemma stdout_print [simp]: "stdout (print d h) = stdout h @ [d]"
  by (simp add: print_def)

lemma example_simps [simp]:
  "model_id (descriptor i t v d) = i"
  "title (descriptor i t v d) = t"
  "version (descriptor i t v d) = v"
  "deprecated (descriptor i t v d) = d"
  "models (host_of ms) = ms"
  "installed (host_of ms) = True"
  "stdout (host_of ms) = []"
  by (simp_all add: descriptor_def host_of_def)

subsection \<open>The pattern\<close>

lemma digit_facts [simp]:
  "\<not> is_digit (CHR ''.'')" "\<not> is_digit (CHR ''-'')" "\<not> is_digit (CHR ''v'')" "\<not> is_digit newline"
  by (simp_all add: is_digit_def newline_def)

lemma digits_plus_iff:
  "digits_plus s = Some r \<longleftrightarrow>
     (\<exists>ds. s = ds @ r \<and> all_digits ds \<and> (r = [] \<or> \<not> is_digit (hd r)))"
proof
  assume a: "digits_plus s = Some r"
  then have t: "takeWhile is_digit s \<noteq> []" and r: "r = dropWhile is_digit s"
    by (auto simp: digits_plus_def split: if_splits)
  have "s = takeWhile is_digit s @ r" by (simp add: r)
  moreover have "all_digits (takeWhile is_digit s)"
    using t by (auto simp: all_digits_def list_all_iff dest: set_takeWhileD)
  moreover have "r = [] \<or> \<not> is_digit (hd r)"
    unfolding r using hd_dropWhile [of is_digit s] by blast
  ultimately show "\<exists>ds. s = ds @ r \<and> all_digits ds \<and> (r = [] \<or> \<not> is_digit (hd r))"
    by blast
next
  assume "\<exists>ds. s = ds @ r \<and> all_digits ds \<and> (r = [] \<or> \<not> is_digit (hd r))"
  then obtain ds where s: "s = ds @ r" and d: "ds \<noteq> []" "\<forall>c \<in> set ds. is_digit c"
    and r: "r = [] \<or> \<not> is_digit (hd r)"
    by (auto simp: all_digits_def list_all_iff)
  from r have "takeWhile is_digit r = []" "dropWhile is_digit r = r"
    by (auto simp: takeWhile_eq_Nil_iff dropWhile_eq_self_iff)
  with d show "digits_plus s = Some r"
    by (simp add: digits_plus_def s)
qed

lemma dot_digits_iff:
  "dot_digits s = Some r \<longleftrightarrow>
     (\<exists>ds. s = ''.'' @ ds @ r \<and> all_digits ds \<and> (r = [] \<or> \<not> is_digit (hd r)))"
  by (cases s) (auto simp: dot_digits_def digits_plus_iff)

lemma version_part_iff:
  "version_part s = Some r \<longleftrightarrow>
     (\<exists>d1 d2 d3. s = ''-v'' @ d1 @ ''.'' @ d2 @ ''.'' @ d3 @ r
        \<and> all_digits d1 \<and> all_digits d2 \<and> all_digits d3 \<and> (r = [] \<or> \<not> is_digit (hd r)))"
proof
  assume "version_part s = Some r"
  then obtain s0 r1 r2 where s: "s = ''-v'' @ s0" and 1: "digits_plus s0 = Some r1"
    and 2: "dot_digits r1 = Some r2" and 3: "dot_digits r2 = Some r"
    by (auto simp: version_part_def bind_eq_Some_conv split: list.splits if_splits)
  from 3 obtain d3 where "r2 = ''.'' @ d3 @ r" "all_digits d3" "r = [] \<or> \<not> is_digit (hd r)"
    by (auto simp: dot_digits_iff)
  moreover from 2 obtain d2 where "r1 = ''.'' @ d2 @ r2" "all_digits d2"
    by (auto simp: dot_digits_iff)
  moreover from 1 obtain d1 where "s0 = d1 @ r1" "all_digits d1"
    by (auto simp: digits_plus_iff)
  ultimately show "\<exists>d1 d2 d3. s = ''-v'' @ d1 @ ''.'' @ d2 @ ''.'' @ d3 @ r
        \<and> all_digits d1 \<and> all_digits d2 \<and> all_digits d3 \<and> (r = [] \<or> \<not> is_digit (hd r))"
    using s by auto
next
  assume "\<exists>d1 d2 d3. s = ''-v'' @ d1 @ ''.'' @ d2 @ ''.'' @ d3 @ r
        \<and> all_digits d1 \<and> all_digits d2 \<and> all_digits d3 \<and> (r = [] \<or> \<not> is_digit (hd r))"
  then obtain d1 d2 d3 where s: "s = ''-v'' @ d1 @ ''.'' @ d2 @ ''.'' @ d3 @ r"
    and d: "all_digits d1" "all_digits d2" "all_digits d3" and r: "r = [] \<or> \<not> is_digit (hd r)"
    by blast
  have 3: "dot_digits (''.'' @ d3 @ r) = Some r"
    using d(3) r by (subst dot_digits_iff) blast
  have 2: "dot_digits (''.'' @ d2 @ ''.'' @ d3 @ r) = Some (''.'' @ d3 @ r)"
    using d(2) by (subst dot_digits_iff) (rule exI [of _ d2], simp)
  have 1: "digits_plus (d1 @ ''.'' @ d2 @ ''.'' @ d3 @ r) = Some (''.'' @ d2 @ ''.'' @ d3 @ r)"
    using d(1) by (subst digits_plus_iff) (rule exI [of _ d1], simp)
  show "version_part s = Some r"
    unfolding s version_part_def using 1 2 3 by simp
qed


lemma all_digits_chars: "all_digits ds \<Longrightarrow> c \<in> set ds \<Longrightarrow> c \<noteq> CHR ''-'' \<and> c \<noteq> newline"
  by (auto simp: all_digits_def list_all_iff)

lemma suffix_match_iff:
  "suffix_match s \<longleftrightarrow>
     (\<exists>d1 d2 d3 t. s = ''-v'' @ d1 @ ''.'' @ d2 @ ''.'' @ d3 @ t
        \<and> all_digits d1 \<and> all_digits d2 \<and> all_digits d3 \<and> (t = [] \<or> t = [newline]))"
    (is "?L \<longleftrightarrow> ?R")
proof
  assume ?L
  then obtain t where "version_part s = Some t" and "t = [] \<or> t = [newline]"
    by (auto simp: suffix_match_def at_end_def split: option.splits)
  then show ?R
    unfolding version_part_iff by blast
next
  assume ?R
  then obtain d1 d2 d3 t where s: "s = ''-v'' @ d1 @ ''.'' @ d2 @ ''.'' @ d3 @ t"
    and d: "all_digits d1" "all_digits d2" "all_digits d3" and t: "t = [] \<or> t = [newline]"
    by blast
  from t have "t = [] \<or> \<not> is_digit (hd t)" by auto
  with s d have "version_part s = Some t"
    unfolding version_part_iff by blast
  with t show ?L
    by (simp add: suffix_match_def at_end_def)
qed

lemma suffix_match_dash:
  assumes "suffix_match s"
  shows "\<exists>t. s = CHR ''-'' # t \<and> CHR ''-'' \<notin> set t"
proof -
  from assms obtain d1 d2 d3 t where s: "s = ''-v'' @ d1 @ ''.'' @ d2 @ ''.'' @ d3 @ t"
    and d: "all_digits d1" "all_digits d2" "all_digits d3" and t: "t = [] \<or> t = [newline]"
    unfolding suffix_match_iff by blast
  have "CHR ''-'' \<notin> set (''v'' @ d1 @ ''.'' @ d2 @ ''.'' @ d3 @ t)"
    using d t by (auto simp: newline_def dest: all_digits_chars)
  with s show ?thesis by simp
qed

lemma suffix_match_unique_aux:
  assumes "suffix_match (drop n x)" and "suffix_match (drop m x)" and "n < m"
  shows False
proof -
  from suffix_match_dash [OF assms(1)] obtain t where t: "drop n x = CHR ''-'' # t" "CHR ''-'' \<notin> set t"
    by blast
  from suffix_match_dash [OF assms(2)] obtain u where u: "drop m x = CHR ''-'' # u"
    by blast
  from \<open>n < m\<close> obtain k where m: "m = Suc k + n" by (metis less_imp_Suc_add add.commute add_Suc)
  have "drop m x = drop (Suc k) (drop n x)" by (simp add: m)
  also have "\<dots> = drop k t" by (simp add: t)
  finally have "drop k t = CHR ''-'' # u" using u by simp
  then have "CHR ''-'' \<in> set (drop k t)" by simp
  then have "CHR ''-'' \<in> set t" by (rule in_set_dropD)
  with t(2) show False by contradiction
qed

lemma suffix_match_unique:
  "suffix_match (drop n x) \<Longrightarrow> suffix_match (drop m x) \<Longrightarrow> n = m"
  using suffix_match_unique_aux [of n x m] suffix_match_unique_aux [of m x n]
  by (cases n m rule: linorder_cases) auto

lemma greedy_Some:
  "greedy k s = Some p \<Longrightarrow> \<exists>n. 0 < n \<and> n \<le> k \<and> suffix_match (drop n s) \<and> p = take n s"
proof (induction k)
  case 0
  then show ?case by simp
next
  case (Suc k)
  show ?case
  proof (cases "suffix_match (drop (Suc k) s)")
    case True
    with Suc.prems show ?thesis by auto
  next
    case False
    with Suc.prems have "greedy k s = Some p" by simp
    from Suc.IH [OF this] show ?thesis by (auto intro: le_SucI)
  qed
qed

lemma greedy_None:
  "greedy k s = None \<Longrightarrow> 0 < n \<Longrightarrow> n \<le> k \<Longrightarrow> \<not> suffix_match (drop n s)"
proof (induction k)
  case 0
  then show ?case by simp
next
  case (Suc k)
  then show ?case by (cases "n = Suc k") (auto split: if_splits)
qed

lemma greedy_iff:
  "greedy k s = Some p \<longleftrightarrow> (\<exists>n. 0 < n \<and> n \<le> k \<and> suffix_match (drop n s) \<and> p = take n s)"
proof
  assume "greedy k s = Some p"
  then show "\<exists>n. 0 < n \<and> n \<le> k \<and> suffix_match (drop n s) \<and> p = take n s"
    by (rule greedy_Some)
next
  assume "\<exists>n. 0 < n \<and> n \<le> k \<and> suffix_match (drop n s) \<and> p = take n s"
  then obtain n where n: "0 < n" "n \<le> k" "suffix_match (drop n s)" "p = take n s"
    by blast
  from greedy_None [of k s n] n have "greedy k s \<noteq> None" by blast
  then obtain q where q: "greedy k s = Some q" by blast
  from greedy_Some [OF q] obtain n' where n': "suffix_match (drop n' s)" "q = take n' s"
    by blast
  from suffix_match_unique [OF n(3) n'(1)] n(4) n'(2) q show "greedy k s = Some p"
    by simp
qed

lemma re_match_iff:
  "re_match x = Some p \<longleftrightarrow>
     (\<exists>d1 d2 d3 t. x = p @ ''-v'' @ d1 @ ''.'' @ d2 @ ''.'' @ d3 @ t
        \<and> p \<noteq> [] \<and> newline \<notin> set p
        \<and> all_digits d1 \<and> all_digits d2 \<and> all_digits d3 \<and> (t = [] \<or> t = [newline]))"
    (is "?L \<longleftrightarrow> ?R")
proof
  assume ?L
  then obtain n where n: "0 < n" "n \<le> length (takeWhile (\<lambda>c. c \<noteq> newline) x)"
    "suffix_match (drop n x)" "p = take n x"
    unfolding re_match_def greedy_iff by blast
  have "p = take n (takeWhile (\<lambda>c. c \<noteq> newline) x)"
  proof -
    have "take n x = take n (takeWhile (\<lambda>c. c \<noteq> newline) x @ dropWhile (\<lambda>c. c \<noteq> newline) x)"
      by simp
    also have "\<dots> = take n (takeWhile (\<lambda>c. c \<noteq> newline) x)"
      using n(2) by (simp del: takeWhile_dropWhile_id)
    finally show ?thesis by (simp add: n(4))
  qed
  then have "set p \<subseteq> set (takeWhile (\<lambda>c. c \<noteq> newline) x)"
    by (simp add: set_take_subset)
  then have nl: "newline \<notin> set p"
    by (auto dest: set_takeWhileD)
  from n(1,2) have "n \<le> length x"
    using length_takeWhile_le [of "\<lambda>c. c \<noteq> newline" x] by linarith
  with n(1,4) have ne: "p \<noteq> []" by auto
  have "x = p @ drop n x" by (simp add: n(4))
  with n(3) nl ne show ?R
    unfolding suffix_match_iff by metis
next
  assume ?R
  then obtain d1 d2 d3 t where x: "x = p @ ''-v'' @ d1 @ ''.'' @ d2 @ ''.'' @ d3 @ t"
    and p: "p \<noteq> []" "newline \<notin> set p"
    and d: "all_digits d1" "all_digits d2" "all_digits d3" and t: "t = [] \<or> t = [newline]"
    by blast
  let ?n = "length p"
  have "takeWhile (\<lambda>c. c \<noteq> newline) x
        = p @ takeWhile (\<lambda>c. c \<noteq> newline) (''-v'' @ d1 @ ''.'' @ d2 @ ''.'' @ d3 @ t)"
    unfolding x using p(2) by (intro takeWhile_append2) auto
  then have le: "?n \<le> length (takeWhile (\<lambda>c. c \<noteq> newline) x)" by simp
  have "drop ?n x = ''-v'' @ d1 @ ''.'' @ d2 @ ''.'' @ d3 @ t" by (simp add: x)
  with d t have "suffix_match (drop ?n x)"
    unfolding suffix_match_iff by blast
  moreover have "p = take ?n x" by (simp add: x)
  moreover from p(1) have "0 < ?n" by simp
  ultimately show ?L
    unfolding re_match_def greedy_iff using le by blast
qed


lemma version_suffix_iff:
  "version_suffix v \<longleftrightarrow>
     (\<exists>d1 d2 d3. v = ''-v'' @ d1 @ ''.'' @ d2 @ ''.'' @ d3
        \<and> all_digits d1 \<and> all_digits d2 \<and> all_digits d3)"
  unfolding version_suffix_def version_part_iff by simp

lemma re_match_examples:
  "re_match ''whole-body-3mm-v1.0.0'' = Some ''whole-body-3mm''"
  "re_match ''a-v1.0.0-v2.3.4'' = Some ''a-v1.0.0''"
  "re_match ''prostate-v10.20.30'' = Some ''prostate''"
  "re_match ''prostate'' = None"
  "re_match ''prostate-v1.0'' = None"
  "re_match ''-v1.0.0'' = None"
  "re_match ''prostate-v1.0.0-rc1'' = None"
  by code_simp+


subsection \<open>Decimal rendering\<close>

lemma digit_char_cases:
  assumes "k < 10"
  shows "is_digit (digit_char k) \<and> (of_char (digit_char k) :: nat) - 48 = k"
proof -
  have "is_digit (digit_char 0) \<and> (of_char (digit_char 0) :: nat) - 48 = 0"
    "is_digit (digit_char 1) \<and> (of_char (digit_char 1) :: nat) - 48 = 1"
    "is_digit (digit_char 2) \<and> (of_char (digit_char 2) :: nat) - 48 = 2"
    "is_digit (digit_char 3) \<and> (of_char (digit_char 3) :: nat) - 48 = 3"
    "is_digit (digit_char 4) \<and> (of_char (digit_char 4) :: nat) - 48 = 4"
    "is_digit (digit_char 5) \<and> (of_char (digit_char 5) :: nat) - 48 = 5"
    "is_digit (digit_char 6) \<and> (of_char (digit_char 6) :: nat) - 48 = 6"
    "is_digit (digit_char 7) \<and> (of_char (digit_char 7) :: nat) - 48 = 7"
    "is_digit (digit_char 8) \<and> (of_char (digit_char 8) :: nat) - 48 = 8"
    "is_digit (digit_char 9) \<and> (of_char (digit_char 9) :: nat) - 48 = 9"
    by code_simp+
  moreover from assms have "k \<in> {0, 1, 2, 3, 4, 5, 6, 7, 8, 9}" by auto
  ultimately show ?thesis by auto
qed

lemma str_nat_digits: "all_digits (str_nat n)"
proof (induction n rule: str_nat.induct)
  case (1 n)
  show ?case
  proof (cases "n < 10")
    case True
    then show ?thesis
      by (subst str_nat.simps) (simp add: all_digits_def digit_char_cases)
  next
    case False
    with 1 have "all_digits (str_nat (n div 10))" by simp
    with False show ?thesis
      by (subst str_nat.simps) (simp add: all_digits_def digit_char_cases)
  qed
qed

text \<open>Reading the digits of \<open>str_nat n\<close> back gives \<open>n\<close>.\<close>

lemma str_nat_value:
  "foldl (\<lambda>a c. 10 * a + (of_char c - 48)) 0 (str_nat n) = n"
proof (induction n rule: str_nat.induct)
  case (1 n)
  show ?case
  proof (cases "n < 10")
    case True
    then show ?thesis
      by (subst str_nat.simps) (simp add: digit_char_cases)
  next
    case False
    with 1 have "foldl (\<lambda>a c. 10 * a + (of_char c - 48)) 0 (str_nat (n div 10)) = n div 10"
      by simp
    with False show ?thesis
      by (subst str_nat.simps) (simp add: digit_char_cases)
  qed
qed

subsection \<open>The loops of the resolver\<close>

lemma matching_eq:
  "matching b ms acc =
     acc @ filter (\<lambda>m. startswith (model_id m) (b @ ''-v'') \<and> \<not> get_deprecated m) ms"
  by (induction ms arbitrary: acc) auto

lemma matching_tutorial_eq:
  "matching_tutorial b ms acc = acc @ filter (\<lambda>m. startswith (model_id m) (b @ ''-v'')) ms"
  by (induction ms arbitrary: acc) auto



subsection \<open>The three outcomes of \<open>findModelId\<close>\<close>

lemma findModelId_exact:
  "x \<in> model_id ` set (models h) \<Longrightarrow> findModelId x True h = (Inr x, print (ModelFound x) h)"
  by (simp add: findModelId_def exact_scan_iff)


lemma findModelId_no_parse:
  assumes "x \<notin> model_id ` set (models h)" and "re_match x = None"
  shows "findModelId x True h = (Inl (ValueError (errorMsg x (models h))), h)"
  using assms by (simp add: findModelId_def exact_scan_iff)



text \<open>
  C2. An id that is the id of some descriptor of the collection is returned as it is,
  whatever else the collection holds: the exact match wins over the fallback.
\<close>

theorem resolve_exact:
  "x \<in> model_id ` set (models h) \<Longrightarrow> fst (findModelId x True h) = Inr x"
  by (simp add: findModelId_exact)

theorem resolve_exact_witness:
  "''prostate-v1.0.0'' \<in> model_id ` set (models (host_of [prostate_101, prostate_100]))
   \<and> fst (findModelId ''prostate-v1.0.0'' True (host_of [prostate_101, prostate_100]))
       = Inr ''prostate-v1.0.0''"
  using resolve_exact [of "''prostate-v1.0.0''" "host_of [prostate_101, prostate_100]"]
  by (simp add: prostate_100_def prostate_101_def)



text \<open>
  C4, as the code has it. The pattern matches an id exactly when the id is a prefix \<open>p\<close>
  that is not empty and holds no newline, then \<open>-v<digits>.<digits>.<digits>\<close>, then
  nothing or one final newline; the base name extracted is \<open>p\<close>, which may itself hold
  hyphens, digits and earlier version-like parts. An id the pattern does not match and that
  has no exact match makes the resolver fail at once: nothing is printed and no fallback
  is searched.
\<close>

theorem parse_end_anchored:
  "(re_match x = Some p \<longleftrightarrow>
      (\<exists>d1 d2 d3 t. x = p @ ''-v'' @ d1 @ ''.'' @ d2 @ ''.'' @ d3 @ t
         \<and> p \<noteq> [] \<and> newline \<notin> set p
         \<and> all_digits d1 \<and> all_digits d2 \<and> all_digits d3 \<and> (t = [] \<or> t = [newline])))
   \<and> (x \<notin> model_id ` set (models h) \<and> re_match x = None \<longrightarrow>
        findModelId x True h = (Inl (ValueError (errorMsg x (models h))), h))"
  using re_match_iff [of x p] findModelId_no_parse [of x h] by blast

theorem parse_end_anchored_witness:
  "''prostate'' \<notin> model_id ` set (models (host_of [prostate_101]))
   \<and> re_match ''prostate'' = None
   \<and> findModelId ''prostate'' True (host_of [prostate_101])
       = (Inl (ValueError (errorMsg ''prostate'' [prostate_101])), host_of [prostate_101])"
proof -
  have a: "''prostate'' \<notin> model_id ` set (models (host_of [prostate_101]))"
    by (simp add: prostate_101_def)
  have b: "re_match ''prostate'' = None"
    by code_simp
  from parse_end_anchored [of "''prostate''" "[]" "host_of [prostate_101]"] a b
  show ?thesis by simp
qed

text \<open>
  C4 as it is written fails in two places. The id made of \<open>a\<close>, a newline and
  \<open>b-v1.0.0\<close> ends in a version suffix after a prefix that is not empty, and no base name
  is extracted. The id \<open>prostate-v1.0.0\<close> followed by a newline does not end in a version
  suffix and has no exact match, and the resolver returns the fallback \<open>prostate-v1.0.1\<close>.
\<close>

theorem parse_claim_counterexample:
  "version_suffix ''-v1.0.0''
   \<and> re_match ((''a'' @ [newline] @ ''b'') @ ''-v1.0.0'') = None
   \<and> \<not> ends_in_version (''prostate-v1.0.0'' @ [newline])
   \<and> (''prostate-v1.0.0'' @ [newline]) \<notin> model_id ` set (models (host_of [prostate_101]))
   \<and> fst (findModelId (''prostate-v1.0.0'' @ [newline]) True (host_of [prostate_101]))
       = Inr ''prostate-v1.0.1''"
proof -
  have 1: "version_suffix ''-v1.0.0''" by code_simp
  have 2: "re_match ((''a'' @ [newline] @ ''b'') @ ''-v1.0.0'') = None" by code_simp
  have 3: "\<not> ends_in_version (''prostate-v1.0.0'' @ [newline])" by code_simp
  have 4: "(''prostate-v1.0.0'' @ [newline]) \<notin> model_id ` set (models (host_of [prostate_101]))"
    by (simp add: prostate_101_def)
  have 5: "fst (findModelId (''prostate-v1.0.0'' @ [newline]) True (host_of [prostate_101]))
       = Inr ''prostate-v1.0.1''"
    by code_simp
  from 1 2 3 4 5 show ?thesis by blast
qed


text \<open>
  C9. A call of the resolver leaves the collection as it was, whether it returns or
  raises: the model list after the call is the list before it, descriptor by descriptor.
  All the call changes is the output, to which it only appends.
\<close>

theorem resolve_frame:
  "models (snd (findModelId x given h)) = models h
   \<and> installed (snd (findModelId x given h)) = installed h
   \<and> (\<exists>ds. stdout (snd (findModelId x given h)) = stdout h @ ds)"
  by (simp add: findModelId_def Let_def split: option.splits list.splits)

text \<open>
  C10. The exact-match step does not look at the deprecated flag: a descriptor that is
  deprecated and carries the requested id still makes the resolver return that id. The
  same descriptor is never in the fallback list, and the ids the error message lists are
  those of the collection without it.
\<close>

theorem resolve_exact_ignores_deprecated:
  assumes "m \<in> set (models h)" and "model_id m = x" and "deprecated m = Some True"
  shows "fst (findModelId x True h) = Inr x
         \<and> m \<notin> set (matching b (models h) [])
         \<and> availableIds (models h) = availableIds (filter (\<lambda>m'. m' \<noteq> m) (models h))"
proof -
  from assms(1,2) have "x \<in> model_id ` set (models h)" by auto
  then have "fst (findModelId x True h) = Inr x" by (simp add: findModelId_exact)
  moreover from assms(3) have d: "get_deprecated m" by (simp add: get_deprecated_def)
  then have "m \<notin> set (matching b (models h) [])" by (simp add: matching_eq)
  moreover have "availableIds (models h) = availableIds (filter (\<lambda>m'. m' \<noteq> m) (models h))"
  proof -
    have "filter (\<lambda>m. \<not> get_deprecated m) (models h)
          = filter (\<lambda>m. \<not> get_deprecated m) (filter (\<lambda>m'. m' \<noteq> m) (models h))"
      using d by (auto intro: filter_cong)
    then show ?thesis by (simp add: availableIds_def)
  qed
  ultimately show ?thesis by blast
qed

theorem resolve_exact_ignores_deprecated_witness:
  "prostate_101_deprecated \<in> set (models (host_of [prostate_101_deprecated, prostate_100]))
   \<and> model_id prostate_101_deprecated = ''prostate-v1.0.1''
   \<and> deprecated prostate_101_deprecated = Some True
   \<and> fst (findModelId ''prostate-v1.0.1'' True (host_of [prostate_101_deprecated, prostate_100]))
       = Inr ''prostate-v1.0.1''"
  using resolve_exact_ignores_deprecated [of prostate_101_deprecated
     "host_of [prostate_101_deprecated, prostate_100]" "''prostate-v1.0.1''" "''prostate''"]
  by (simp add: prostate_101_deprecated_def)

subsection \<open>The keyword extractor\<close>

lemma collect_eq:
  "length kws < 2 \<Longrightarrow> collect ws kws = take 2 (kws @ filter meaningful ws)"
proof (induction ws arbitrary: kws)
  case Nil
  then show ?case by simp
next
  case (Cons w ws)
  show ?case
  proof (cases "meaningful w")
    case False
    with Cons show ?thesis by simp
  next
    case True
    show ?thesis
    proof (cases "length kws = 1")
      case True
      with \<open>meaningful w\<close> show ?thesis by (simp add: Let_def)
    next
      case False
      with Cons.prems have "kws = []" by (cases kws) auto
      with \<open>meaningful w\<close> Cons.IH [of "[w]"] show ?thesis by (simp add: Let_def)
    qed
  qed
qed

lemma collect_take: "collect ws [] = take 2 (filter meaningful ws)"
  using collect_eq [of "[]" ws] by simp

lemma scan_models_find:
  "scan_models tr x ms =
     (case find (\<lambda>m. model_id m = x) ms of
        None \<Rightarrow> Inr []
      | Some m \<Rightarrow> keywords_of (tr ''Models'' (title m)))"
  by (induction ms) auto

lemma split_from_eq:
  "split_from s cur =
     (if cur @ takeWhile (\<lambda>c. \<not> is_space c) s = [] then []
      else [cur @ takeWhile (\<lambda>c. \<not> is_space c) s])
     @ (case dropWhile (\<lambda>c. \<not> is_space c) s of [] \<Rightarrow> [] | _ # r \<Rightarrow> split_from r [])"
  by (induction s arbitrary: cur) auto

lemma str_split_Nil: "str_split [] = []"
  by (simp add: str_split_def)

lemma str_split_space: "is_space c \<Longrightarrow> str_split (c # s) = str_split s"
  by (simp add: str_split_def)

lemma str_split_word:
  assumes "w \<noteq> []" and "\<forall>c \<in> set w. \<not> is_space c"
  shows "str_split w = [w]"
proof -
  from assms(2) have tw: "takeWhile (\<lambda>c. \<not> is_space c) w = w"
    and dw: "dropWhile (\<lambda>c. \<not> is_space c) w = []"
    by simp_all
  have "split_from w [] = [w]"
    by (subst split_from_eq) (simp only: tw dw, simp add: assms(1))
  then show ?thesis by (simp add: str_split_def)
qed

lemma str_split_word_space:
  assumes "w \<noteq> []" and "\<forall>c \<in> set w. \<not> is_space c" and "is_space c"
  shows "str_split (w @ c # s) = w # str_split s"
proof -
  from assms(2,3) have "takeWhile (\<lambda>c. \<not> is_space c) (w @ c # s) = w"
    "dropWhile (\<lambda>c. \<not> is_space c) (w @ c # s) = c # s"
    by (simp_all add: takeWhile_append2 dropWhile_append2)
  with assms(1) show ?thesis
    unfolding str_split_def by (subst split_from_eq) simp
qed

lemma split_from_words:
  "\<forall>c \<in> set cur. \<not> is_space c \<Longrightarrow> w \<in> set (split_from s cur) \<Longrightarrow>
   w \<noteq> [] \<and> (\<forall>c \<in> set w. \<not> is_space c)"
proof (induction s arbitrary: cur)
  case Nil
  then show ?case by (auto split: if_splits)
next
  case (Cons a s)
  show ?case
  proof (cases "is_space a")
    case True
    with Cons.prems(2) have "(w = cur \<and> cur \<noteq> []) \<or> w \<in> set (split_from s [])"
      by (auto split: if_splits)
    then show ?thesis using Cons.IH [of "[]"] Cons.prems(1) by auto
  next
    case False
    with Cons.prems(2) have "w \<in> set (split_from s (cur @ [a]))" by simp
    moreover have "\<forall>c \<in> set (cur @ [a]). \<not> is_space c"
      using Cons.prems(1) False by simp
    ultimately show ?thesis using Cons.IH by blast
  qed
qed

lemma str_split_words: "w \<in> set (str_split s) \<Longrightarrow> w \<noteq> [] \<and> (\<forall>c \<in> set w. \<not> is_space c)"
  using split_from_words [of "[]" w s] by (simp add: str_split_def)

lemma keywords_of_some:
  "take 2 (filter meaningful (str_split t)) \<noteq> [] \<Longrightarrow>
   keywords_of t = Inr (str_join (take 2 (filter meaningful (str_split t))))"
  by (simp add: keywords_of_def collect_take Let_def)

lemma keywords_of_none:
  "\<forall>w \<in> set (str_split t). \<not> meaningful w \<Longrightarrow>
   keywords_of t = Inr (case str_split t of [] \<Rightarrow> [] | w # _ \<Rightarrow> w)"
  by (simp add: keywords_of_def collect_take Let_def index0_def filter_False split: list.splits)

lemma keywords_of_returns: "\<exists>s. keywords_of t = Inr s"
  by (simp add: keywords_of_def Let_def index0_def split: list.splits)

text \<open>The test of the loop, written out: the stop list, the lowering and the length.\<close>

lemma meaningful_iff:
  "meaningful w \<longleftrightarrow>
     str_lower w \<notin> {''segmentation'', ''quick'', ''-'', ''ts1'', ''ts2'', ''v1'', ''v2'', ''the''}
     \<and> 2 < length w"
  by (simp add: meaningful_def skipWords_def)

text \<open>
  C6. For an id whose first descriptor in the collection is \<open>m\<close>, the extractor splits the
  translated title of \<open>m\<close> at whitespace and walks the words in order. It skips a word
  when the word, lowered, is one of \<open>segmentation\<close>, \<open>quick\<close>, \<open>-\<close>, \<open>ts1\<close>,
  \<open>ts2\<close>, \<open>v1\<close>, \<open>v2\<close>, \<open>the\<close>, or when the word has two characters or fewer.
  It keeps the first two words that are left, in their order and case. One kept word is
  returned as it is, two are returned with one space between them; in particular a title
  of two words that both pass gives the two words with one space between.
\<close>

theorem keywords_first_two:
  assumes "find (\<lambda>m. model_id m = x) (models h) = Some m"
  shows "(take 2 (filter (\<lambda>w. str_lower w \<notin> {''segmentation'', ''quick'', ''-'', ''ts1'',
                                               ''ts2'', ''v1'', ''v2'', ''the''} \<and> 2 < length w)
                  (str_split (translate ''Models'' (title m)))) = [a] \<longrightarrow>
          getModelSearchKeywords translate x True h = Inr a)
       \<and> (take 2 (filter (\<lambda>w. str_lower w \<notin> {''segmentation'', ''quick'', ''-'', ''ts1'',
                                               ''ts2'', ''v1'', ''v2'', ''the''} \<and> 2 < length w)
                  (str_split (translate ''Models'' (title m)))) = [a, b] \<longrightarrow>
          getModelSearchKeywords translate x True h = Inr (a @ '' '' @ b))
       \<and> (str_split (translate ''Models'' (title m)) = [a, b]
          \<and> str_lower a \<notin> {''segmentation'', ''quick'', ''-'', ''ts1'', ''ts2'', ''v1'', ''v2'', ''the''}
          \<and> 2 < length a
          \<and> str_lower b \<notin> {''segmentation'', ''quick'', ''-'', ''ts1'', ''ts2'', ''v1'', ''v2'', ''the''}
          \<and> 2 < length b \<longrightarrow>
          getModelSearchKeywords translate x True h = Inr (a @ '' '' @ b))"
proof -
  let ?ws = "str_split (translate ''Models'' (title m))"
  have g: "getModelSearchKeywords translate x True h = keywords_of (translate ''Models'' (title m))"
    using assms by (simp add: getModelSearchKeywords_def scan_models_find)
  have f: "(\<lambda>w. str_lower w \<notin> {''segmentation'', ''quick'', ''-'', ''ts1'', ''ts2'', ''v1'',
                                 ''v2'', ''the''} \<and> 2 < length w) = meaningful"
    by (rule ext) (simp only: meaningful_iff)
  have one: "getModelSearchKeywords translate x True h = Inr a"
    if "take 2 (filter meaningful ?ws) = [a]"
    using that keywords_of_some [of "translate ''Models'' (title m)"] by (simp add: g)
  have two: "getModelSearchKeywords translate x True h = Inr (a @ '' '' @ b)"
    if "take 2 (filter meaningful ?ws) = [a, b]"
    using that keywords_of_some [of "translate ''Models'' (title m)"] by (simp add: g)
  have both: "getModelSearchKeywords translate x True h = Inr (a @ '' '' @ b)"
    if "?ws = [a, b]" "meaningful a" "meaningful b"
    using that two by simp
  show ?thesis
    unfolding f using one two both by (simp add: meaningful_iff)
qed

text \<open>
  Two inputs. In the title of \<open>lung_ct\<close> the words \<open>Quick\<close>, \<open>Segmentation\<close>,
  \<open>-\<close>, \<open>TS2\<close> and \<open>v1\<close> are in the stop list once lowered, \<open>of\<close> has two
  characters, and \<open>CT1\<close>, with three, is the first word kept. The title of
  \<open>brats_gli\<close> has two words and both pass.
\<close>

theorem keywords_first_two_witness:
  "find (\<lambda>m. model_id m = ''lung-ct-v1.0.0'') (models (host_of [lung_ct, brats_gli])) = Some lung_ct
   \<and> take 2 (filter (\<lambda>w. str_lower w \<notin> {''segmentation'', ''quick'', ''-'', ''ts1'',
                                           ''ts2'', ''v1'', ''v2'', ''the''} \<and> 2 < length w)
              (str_split (no_translation ''Models'' (title lung_ct)))) = [''CT1'', ''Lungs'']
   \<and> getModelSearchKeywords no_translation ''lung-ct-v1.0.0'' True (host_of [lung_ct, brats_gli])
       = Inr ''CT1 Lungs''
   \<and> find (\<lambda>m. model_id m = ''brats-gli-v1.0.0'') (models (host_of [lung_ct, brats_gli]))
       = Some brats_gli
   \<and> str_split (no_translation ''Models'' (title brats_gli)) = [''Brain'', ''Tumor'']
   \<and> str_lower ''Brain'' \<notin> {''segmentation'', ''quick'', ''-'', ''ts1'', ''ts2'', ''v1'', ''v2'', ''the''}
   \<and> 2 < length ''Brain''
   \<and> str_lower ''Tumor'' \<notin> {''segmentation'', ''quick'', ''-'', ''ts1'', ''ts2'', ''v1'', ''v2'', ''the''}
   \<and> 2 < length ''Tumor''
   \<and> getModelSearchKeywords no_translation ''brats-gli-v1.0.0'' True (host_of [lung_ct, brats_gli])
       = Inr ''Brain Tumor''"
proof -
  have f1: "find (\<lambda>m. model_id m = ''lung-ct-v1.0.0'') (models (host_of [lung_ct, brats_gli]))
            = Some lung_ct"
    by (simp add: lung_ct_def)
  have s1: "str_split (no_translation ''Models'' (title lung_ct))
            = [''Quick'', ''Segmentation'', ''-'', ''TS2'', ''v1'', ''of'', ''CT1'', ''Lungs'',
               ''the'', ''Airways'']"
    by code_simp
  have l1: "map str_lower [''Quick'', ''Segmentation'', ''-'', ''TS2'', ''v1'', ''of'', ''CT1'',
                           ''Lungs'', ''the'', ''Airways'']
            = [''quick'', ''segmentation'', ''-'', ''ts2'', ''v1'', ''of'', ''ct1'', ''lungs'',
               ''the'', ''airways'']"
    by code_simp
  have k1: "take 2 (filter (\<lambda>w. str_lower w \<notin> {''segmentation'', ''quick'', ''-'', ''ts1'',
                                           ''ts2'', ''v1'', ''v2'', ''the''} \<and> 2 < length w)
              (str_split (no_translation ''Models'' (title lung_ct)))) = [''CT1'', ''Lungs'']"
    unfolding s1 using l1 by simp
  have f2: "find (\<lambda>m. model_id m = ''brats-gli-v1.0.0'') (models (host_of [lung_ct, brats_gli]))
            = Some brats_gli"
    by (simp add: lung_ct_def brats_gli_def)
  have s2: "str_split (no_translation ''Models'' (title brats_gli)) = [''Brain'', ''Tumor'']"
    by code_simp
  have l2: "str_lower ''Brain'' = ''brain''" "str_lower ''Tumor'' = ''tumor''"
    by code_simp+
  from keywords_first_two [OF f1, of no_translation "''CT1''" "''Lungs''"]
       keywords_first_two [OF f2, of no_translation "''Brain''" "''Tumor''"]
       f1 k1 f2 s2 l2
  show ?thesis by simp
qed

text \<open>Words beyond the second kept one are not looked at.\<close>

lemma keywords_whole_body:
  "getModelSearchKeywords no_translation ''whole-body-3mm-v1.0.0'' True
     (host_of [whole_body, brats_gli]) = Inr ''Whole Body''"
  by code_simp

text \<open>
  C7. When every word of the translated title is dropped, the extractor returns the first
  word of the title as it stands, and the empty string when the title has no word.
\<close>

theorem keywords_all_filtered:
  assumes "find (\<lambda>m. model_id m = x) (models h) = Some m"
    and "\<forall>w \<in> set (str_split (translate ''Models'' (title m))). \<not> meaningful w"
  shows "getModelSearchKeywords translate x True h =
           Inr (case str_split (translate ''Models'' (title m)) of [] \<Rightarrow> [] | w # _ \<Rightarrow> w)"
  using assms by (simp add: getModelSearchKeywords_def scan_models_find keywords_of_none)

theorem keywords_all_filtered_witness:
  "find (\<lambda>m. model_id m = ''ts2-v1.0.0'') (models (host_of [stop_words_only])) = Some stop_words_only
   \<and> str_split (no_translation ''Models'' (title stop_words_only)) = [''The'', ''TS2'', ''-'', ''v1'']
   \<and> \<not> meaningful ''The'' \<and> \<not> meaningful ''TS2'' \<and> \<not> meaningful ''-'' \<and> \<not> meaningful ''v1''
   \<and> getModelSearchKeywords no_translation ''ts2-v1.0.0'' True (host_of [stop_words_only]) = Inr ''The''"
proof -
  have f: "find (\<lambda>m. model_id m = ''ts2-v1.0.0'') (models (host_of [stop_words_only]))
           = Some stop_words_only"
    by (simp add: stop_words_only_def)
  have s: "str_split (no_translation ''Models'' (title stop_words_only))
           = [''The'', ''TS2'', ''-'', ''v1'']"
    by code_simp
  have m: "\<not> meaningful ''The''" "\<not> meaningful ''TS2''" "\<not> meaningful ''-''" "\<not> meaningful ''v1''"
    by code_simp+
  have a: "\<forall>w \<in> set (str_split (no_translation ''Models'' (title stop_words_only))). \<not> meaningful w"
    unfolding s using m by simp
  from keywords_all_filtered [of "''ts2-v1.0.0''" "host_of [stop_words_only]" stop_words_only
      no_translation, OF f a] f s m show ?thesis
    by simp
qed

text \<open>
  C8. The extractor never raises: whatever the id, the collection and the way the logic
  object is obtained, it returns a string, and the string is empty when no descriptor
  carries the id.
\<close>

theorem keywords_never_raises:
  "(\<exists>s. getModelSearchKeywords translate x given h = Inr s)
   \<and> (x \<notin> model_id ` set (models h) \<longrightarrow> getModelSearchKeywords translate x given h = Inr [])"
proof -
  have "\<exists>s. scan_models translate x ms = Inr s" for ms
    by (induction ms) (auto simp: keywords_of_returns)
  moreover have "x \<notin> model_id ` set ms \<Longrightarrow> scan_models translate x ms = Inr []" for ms
    by (induction ms) auto
  ultimately show ?thesis by (simp add: getModelSearchKeywords_def)
qed

theorem keywords_never_raises_witness:
  "''absent-v1.0.0'' \<notin> model_id ` set (models (host_of [prostate_101]))
   \<and> getModelSearchKeywords no_translation ''absent-v1.0.0'' True (host_of [prostate_101]) = Inr []"
  using keywords_never_raises [of no_translation "''absent-v1.0.0''" True "host_of [prostate_101]"]
  by (simp add: prostate_101_def)

text \<open>
  C5. The two resolvers do not agree. For a collection whose only descriptor is the
  deprecated \<open>prostate-v1.0.1\<close> and the request \<open>prostate-v1.0.0\<close>, the resolver of
  \<open>model_selection_utils.py\<close> raises and the one of the tutorial script returns
  \<open>prostate-v1.0.1\<close>: its fallback loop does not skip deprecated descriptors.
\<close>

theorem resolvers_differ_on_deprecated:
  "\<forall>repr. fst (findModelId ''prostate-v1.0.0'' True (host_of [prostate_101_deprecated]))
      = Inl (ValueError (errorMsg ''prostate-v1.0.0'' [prostate_101_deprecated]))
   \<and> fst (Slicer4MinuteTest_findModelId repr ''prostate-v1.0.0'' True (host_of [prostate_101_deprecated]))
      = Inr ''prostate-v1.0.1''"
proof -
  have r: "re_match ''prostate-v1.0.0'' = Some ''prostate''" by code_simp
  show ?thesis
    by (simp add: findModelId_def Slicer4MinuteTest_findModelId_def r prostate_101_deprecated_def
        startswith_def get_deprecated_def Let_def)
qed

text \<open>On a collection without deprecated descriptors the two return the same id and raise
  in the same cases.\<close>

lemma resolvers_agree_without_deprecated:
  assumes "\<forall>m \<in> set (models h). \<not> get_deprecated m"
  shows "map_sum (\<lambda>_. ()) id (fst (findModelId x given h))
       = map_sum (\<lambda>_. ()) id (fst (Slicer4MinuteTest_findModelId repr x given h))"
proof -
  have "filter (\<lambda>m. startswith (model_id m) (b @ ''-v'') \<and> \<not> get_deprecated m) (models h)
      = filter (\<lambda>m. startswith (model_id m) (b @ ''-v'')) (models h)" for b
    using assms by (auto intro: filter_cong)
  then show ?thesis
    by (simp add: findModelId_def Slicer4MinuteTest_findModelId_def matching_eq
        matching_tutorial_eq Let_def split: option.splits list.splits)
qed


text \<open>With a second, newer descriptor that is deprecated, both return, and not the same id.\<close>

lemma resolvers_return_different_ids:
  "\<forall>repr. fst (findModelId ''prostate-v1.0.0'' True (host_of [prostate_102_deprecated, prostate_101]))
      = Inr ''prostate-v1.0.1''
   \<and> fst (Slicer4MinuteTest_findModelId repr ''prostate-v1.0.0'' True
           (host_of [prostate_102_deprecated, prostate_101]))
      = Inr ''prostate-v1.0.2''"
proof -
  have r: "re_match ''prostate-v1.0.0'' = Some ''prostate''" by code_simp
  show ?thesis
    by (simp add: findModelId_def Slicer4MinuteTest_findModelId_def r prostate_102_deprecated_def
        prostate_101_def startswith_def get_deprecated_def Let_def)
qed

end
